theory Spec2Isabelle
  imports Complex_Main
begin

section \<open>Fourier seasonality: the feature generator\<close>

text \<open>
  Embedding of \<^verbatim>\<open>pymc_marketing/mmm/fourier.py\<close>. Tensors of floats are modelled by
  their values over the real numbers: \<^verbatim>\<open>pt.sin\<close>, \<^verbatim>\<open>pt.cos\<close> and \<^verbatim>\<open>pt.pi\<close> are the real
  \<open>sin\<close>, \<open>cos\<close> and \<open>pi\<close>, so rounding is not part of the model. A one-dimensional
  tensor is a list, a matrix is a list of rows.
\<close>

text \<open>\<^verbatim>\<open>pt.arange(start, stop)\<close> on Python integers: \<open>start, ..., stop - 1\<close>.\<close>

definition arange :: "int \<Rightarrow> int \<Rightarrow> int list" where
  "arange start stop = [start..stop - 1]"

text \<open>
  \<^verbatim>\<open>
  def generate_fourier_modes(periods, n_order):
      multiples = pt.arange(1, n_order + 1)
      x = 2 * pt.pi * periods
      values = x[:, None] * multiples
      return pt.concatenate([pt.sin(values), pt.cos(values)], axis=1)
  \<close>
\<close>

definition generate_fourier_modes :: "real list \<Rightarrow> int \<Rightarrow> real list list" where
  "generate_fourier_modes periods n_order =
     (let multiples = arange 1 (n_order + 1);
          x = map (\<lambda>p. 2 * pi * p) periods;
          values = map (\<lambda>xp. map (\<lambda>m. xp * real_of_int m) multiples) x
      in map (\<lambda>row. map sin row @ map cos row) values)"

section \<open>Python values, strings and errors\<close>

text \<open>
  The values a caller can pass for \<^verbatim>\<open>n_order\<close>. \<^verbatim>\<open>isinstance(x, int)\<close> holds for Python
  integers and for booleans (\<^verbatim>\<open>bool\<close> is a subclass of \<^verbatim>\<open>int\<close>, \<^verbatim>\<open>True == 1\<close>), and for
  nothing else.
\<close>

datatype py_value = PyNone | PyBool bool | PyInt int | PyFloat real | PyStr string

fun int_value :: "py_value \<Rightarrow> int option" where
  "int_value (PyInt i) = Some i"
| "int_value (PyBool b) = Some (if b then 1 else 0)"
| "int_value _ = None"

definition isinstance_int :: "py_value \<Rightarrow> bool" where
  "isinstance_int v = (int_value v \<noteq> None)"

text \<open>
  The three \<^verbatim>\<open>ValueError\<close>s of the constructor, told apart by their messages, and the
  failures of \<^verbatim>\<open>apply\<close>.
\<close>

datatype error =
    InvalidOrder      \<comment> \<open>"n_order must be a positive integer. Not ..."\<close>
  | NameCollision     \<comment> \<open>"Variable name cannot be the same as the prefix"\<close>
  | MissingAxis       \<comment> \<open>"Prior distribution must have dimension ..."\<close>
  | NotInTuple        \<comment> \<open>\<^verbatim>\<open>tuple.index\<close> of an absent element\<close>
  | DuplicateCoord    \<comment> \<open>\<^verbatim>\<open>add_coord\<close> of a name bound to other values\<close>
  | UnknownCoord      \<comment> \<open>a variable over an axis the model has no coordinate for\<close>
  | UnalignedAxis     \<comment> \<open>an operand axis that is not among the desired axes\<close>
  | ShapeMismatch     \<comment> \<open>operands that do not broadcast\<close>
  | AxisOutOfRange    \<comment> \<open>a reduction along an axis the tensor does not have\<close>

text \<open>\<^verbatim>\<open>x or default\<close> for \<^verbatim>\<open>x: str | None\<close>: \<^verbatim>\<open>None\<close> and the empty string are falsy.\<close>

definition str_or :: "string option \<Rightarrow> string \<Rightarrow> string" where
  "str_or x d = (case x of None \<Rightarrow> d | Some s \<Rightarrow> if s = [] then d else s)"

text \<open>The decimal text of a Python integer, as an f-string formats it.\<close>

definition digit_char :: "nat \<Rightarrow> char" where
  "digit_char d = ''0123456789'' ! d"

fun str_nat :: "nat \<Rightarrow> string" where
  "str_nat n = (if n < 10 then [digit_char n] else str_nat (n div 10) @ [digit_char (n mod 10)])"

declare str_nat.simps [simp del]

definition str_int :: "int \<Rightarrow> string" where
  "str_int i = (if i < 0 then ''-'' @ str_nat (nat (- i)) else str_nat (nat i))"

text \<open>\<^verbatim>\<open>xs.index(x)\<close>: the first position of \<open>x\<close>, none when \<open>x\<close> is absent.\<close>

fun index_of :: "'a \<Rightarrow> 'a list \<Rightarrow> nat option" where
  "index_of x [] = None"
| "index_of x (y # ys) =
     (if x = y then Some 0 else (case index_of x ys of None \<Rightarrow> None | Some i \<Rightarrow> Some (Suc i)))"

section \<open>Priors and the store of objects\<close>

text \<open>
  Modelled from the spec: the class \<^verbatim>\<open>Prior\<close> of \<^verbatim>\<open>pymc_marketing.prior\<close> is not among
  the sources. A prior is the weight specification: a distribution name, its
  parameters and the declared axis names \<^verbatim>\<open>dims\<close>, a tuple of strings, empty when none
  are declared. Assigning a single string to \<^verbatim>\<open>dims\<close> stores the one-element tuple
  (\<^verbatim>\<open>test_prior_without_dims\<close>: \<^verbatim>\<open>yearly.prior.dims == (yearly.prefix,)\<close>).

  Priors are mutable objects that the constructor may share with its caller, so they
  live in a store: an address is a position in the list of allocated objects.
\<close>

record Prior =
  distribution :: string
  parameters :: "(string \<times> real) list"
  dims :: "string list"

type_synonym addr = nat
type_synonym heap = "Prior list"

definition Prior_new :: "heap \<Rightarrow> Prior \<Rightarrow> addr \<times> heap" where
  "Prior_new h p = (length h, h @ [p])"

text \<open>\<^verbatim>\<open>obj.deepcopy()\<close>: a new object with the same contents.\<close>

definition deepcopy :: "heap \<Rightarrow> addr \<Rightarrow> addr \<times> heap" where
  "deepcopy h a = Prior_new h (h ! a)"

text \<open>\<^verbatim>\<open>obj.dims = name\<close> for a string \<^verbatim>\<open>name\<close>.\<close>

definition set_dims :: "heap \<Rightarrow> addr \<Rightarrow> string \<Rightarrow> heap" where
  "set_dims h a name = h[a := (h ! a)\<lparr>dims := [name]\<rparr>]"

text \<open>
  The class attribute \<^verbatim>\<open>default_prior = Prior("Laplace", mu=0, b=1)\<close> is created once,
  when the class is: it is the first object of the store.
\<close>

definition default_prior :: addr where
  "default_prior = 0"

definition initial_heap :: heap where
  "initial_heap = [\<lparr>distribution = ''Laplace'', parameters = [(''mu'', 0), (''b'', 1)], dims = []\<rparr>]"

section \<open>The seasonality component\<close>

text \<open>
  Modelled from the spec: \<^verbatim>\<open>pymc_marketing.constants\<close> is not among the sources. The
  module's documentation gives the periods: 365.25 days for the yearly component and
  365.25 / 12 days for the monthly one.
\<close>

definition DAYS_IN_YEAR :: real where
  "DAYS_IN_YEAR = 365.25"

definition DAYS_IN_MONTH :: real where
  "DAYS_IN_MONTH = 365.25 / 12"

text \<open>The class attribute \<^verbatim>\<open>prefix: str = "fourier"\<close>.\<close>

definition class_prefix :: string where
  "class_prefix = ''fourier''"

record FourierBase =
  n_order :: int
  prefix :: string
  prior :: addr
  variable_name :: string
  days_in_period :: real

text \<open>
  \<^verbatim>\<open>
  def __init__(self, n_order, prefix=None, prior=None, name=None):
      if not isinstance(n_order, int) or n_order < 1:
          raise ValueError(f"n_order must be a positive integer. Not {n_order}")
      self.n_order = n_order
      self.prefix = prefix or self.prefix
      self.prior = prior or self.default_prior
      self.variable_name = name or f"{self.prefix}_beta"
      if self.variable_name == self.prefix:
          raise ValueError("Variable name cannot be the same as the prefix")
      if not self.prior.dims:
          self.prior = self.prior.deepcopy()
          self.prior.dims = self.prefix
      if self.prefix not in self.prior.dims:
          raise ValueError(f"Prior distribution must have dimension {self.prefix}")
  \<close>
  The first argument is the class attribute \<^verbatim>\<open>days_in_period\<close> of the subclass that is
  constructed. The result is the object or the error raised, and the store after the
  call. A boolean \<^verbatim>\<open>n_order\<close> is stored as the integer it equals.
\<close>

definition FourierBase_init ::
  "real \<Rightarrow> heap \<Rightarrow> py_value \<Rightarrow> string option \<Rightarrow> addr option \<Rightarrow> string option
     \<Rightarrow> (error + FourierBase) \<times> heap" where
  "FourierBase_init cls_days h n_order_arg prefix_arg prior_arg name_arg =
     (if \<not> isinstance_int n_order_arg \<or> the (int_value n_order_arg) < 1
      then (Inl InvalidOrder, h)
      else
        let self_prefix = str_or prefix_arg class_prefix;
            self_prior = (case prior_arg of None \<Rightarrow> default_prior | Some a \<Rightarrow> a);
            self_name = str_or name_arg (self_prefix @ ''_beta'')
        in if self_name = self_prefix then (Inl NameCollision, h)
           else
             let (self_prior, h) =
                   (if dims (h ! self_prior) = []
                    then (let (copy, h) = deepcopy h self_prior
                          in (copy, set_dims h copy self_prefix))
                    else (self_prior, h))
             in if self_prefix \<notin> set (dims (h ! self_prior)) then (Inl MissingAxis, h)
                else (Inr \<lparr>n_order = the (int_value n_order_arg), prefix = self_prefix,
                            prior = self_prior, variable_name = self_name,
                            days_in_period = cls_days\<rparr>, h))"

definition YearlyFourier ::
  "heap \<Rightarrow> py_value \<Rightarrow> string option \<Rightarrow> addr option \<Rightarrow> string option
     \<Rightarrow> (error + FourierBase) \<times> heap" where
  "YearlyFourier = FourierBase_init DAYS_IN_YEAR"

definition MonthlyFourier ::
  "heap \<Rightarrow> py_value \<Rightarrow> string option \<Rightarrow> addr option \<Rightarrow> string option
     \<Rightarrow> (error + FourierBase) \<times> heap" where
  "MonthlyFourier = FourierBase_init DAYS_IN_MONTH"

text \<open>
  \<^verbatim>\<open>
  @property
  def nodes(self):
      return [f"{func}_{i}" for func in ["sin", "cos"] for i in range(1, self.n_order + 1)]
  \<close>
\<close>

definition nodes :: "FourierBase \<Rightarrow> string list" where
  "nodes self =
     concat (map (\<lambda>func. map (\<lambda>i. func @ ''_'' @ str_int i) (arange 1 (n_order self + 1)))
               [''sin'', ''cos''])"

section \<open>Tensors, coordinates and the model context\<close>

text \<open>
  A tensor is known by its shape and by the value at each index vector (the values of
  a symbolic tensor once the graph is evaluated). Axis names are not part of a tensor:
  the code keeps them beside it, as tuples of strings.
\<close>

record tensor =
  shape :: "nat list"
  item :: "nat list \<Rightarrow> real"

text \<open>The matrix of \<open>generate_fourier_modes\<close> as a tensor with two axes.\<close>

definition matrix_tensor :: "nat \<Rightarrow> real list list \<Rightarrow> tensor" where
  "matrix_tensor cols m = \<lparr>shape = [length m, cols], item = (\<lambda>idx. m ! (idx ! 0) ! (idx ! 1))\<rparr>"

text \<open>The values of a coordinate: numbers or labels.\<close>

datatype coord_values = Numeric "real list" | Labels "string list"

fun coord_size :: "coord_values \<Rightarrow> nat" where
  "coord_size (Numeric xs) = length xs"
| "coord_size (Labels ls) = length ls"

type_synonym coords = "(string \<times> coord_values) list"

text \<open>
  Modelled from the spec: the model context of the probabilistic-programming
  collaborator is not among the sources. It holds the named axis-size mappings, a
  dictionary from axis name to the list of its values. \<^verbatim>\<open>model.add_coord(name, values)\<close>
  binds a new name and accepts a name that is bound to the same values.
\<close>

definition add_coord :: "coords \<Rightarrow> string \<Rightarrow> coord_values \<Rightarrow> error + coords" where
  "add_coord cs name vs =
     (case map_of cs name of
        None \<Rightarrow> Inr (cs @ [(name, vs)])
      | Some old \<Rightarrow> if old = vs then Inr cs else Inl DuplicateCoord)"

text \<open>
  Modelled from the spec: \<^verbatim>\<open>Prior.create_variable\<close> is not among the sources. It
  creates a tensor with the given axis labels and sizes: one axis for each declared
  axis name, in the declared order, as long as the coordinate of that name. The values
  of the random variable are not the component's to choose: they are the argument
  \<open>vals\<close>.
\<close>

definition create_variable :: "coords \<Rightarrow> string list \<Rightarrow> (nat list \<Rightarrow> real) \<Rightarrow> error + tensor" where
  "create_variable cs ds vals =
     (if \<forall>d \<in> set ds. map_of cs d \<noteq> None
      then Inr \<lparr>shape = map (\<lambda>d. coord_size (the (map_of cs d))) ds, item = vals\<rparr>
      else Inl UnknownCoord)"

text \<open>
  Modelled from the spec: \<^verbatim>\<open>create_dim_handler\<close> of \<^verbatim>\<open>pymc_marketing.prior\<close> is not
  among the sources. The handler aligns an operand, whose axes are named \<open>x_dims\<close>,
  onto the full axis set \<open>desired_dims\<close>: every axis is matched by its name, never by
  its position, and an axis the operand does not have is inserted with size one. An
  operand axis that is not among the desired axes has no place to go.
\<close>

definition handle_dims :: "tensor \<Rightarrow> string list \<Rightarrow> string list \<Rightarrow> error + tensor" where
  "handle_dims x x_dims desired_dims =
     (if \<not> set x_dims \<subseteq> set desired_dims then Inl UnalignedAxis
      else Inr \<lparr>shape = map (\<lambda>d. case index_of d x_dims of None \<Rightarrow> 1 | Some i \<Rightarrow> shape x ! i)
                          desired_dims,
                item = (\<lambda>idx. item x (map (\<lambda>d. idx ! the (index_of d desired_dims)) x_dims))\<rparr>)"

definition create_dim_handler :: "string list \<Rightarrow> tensor \<Rightarrow> string list \<Rightarrow> error + tensor" where
  "create_dim_handler desired_dims = (\<lambda>x x_dims. handle_dims x x_dims desired_dims)"

text \<open>
  The elementwise product of two tensors with the same number of axes. Along an axis
  where one operand has size one, its only entry is used for every index.
\<close>

definition broadcast_index :: "nat list \<Rightarrow> nat list \<Rightarrow> nat list" where
  "broadcast_index shp idx = map2 (\<lambda>s i. if s = 1 then 0 else i) shp idx"

definition tensor_mul :: "tensor \<Rightarrow> tensor \<Rightarrow> error + tensor" where
  "tensor_mul a b =
     (if length (shape a) = length (shape b) \<and>
         list_all2 (\<lambda>s t. s = t \<or> s = 1 \<or> t = 1) (shape a) (shape b)
      then Inr \<lparr>shape = map2 (\<lambda>s t. if s = 1 then t else s) (shape a) (shape b),
                item = (\<lambda>idx. item a (broadcast_index (shape a) idx) *
                               item b (broadcast_index (shape b) idx))\<rparr>
      else Inl ShapeMismatch)"

text \<open>\<^verbatim>\<open>x.sum(axis=k)\<close>: axis \<open>k\<close> is summed over and leaves the shape.\<close>

definition tensor_sum :: "tensor \<Rightarrow> nat \<Rightarrow> error + tensor" where
  "tensor_sum x axis =
     (if axis < length (shape x)
      then Inr \<lparr>shape = take axis (shape x) @ drop (Suc axis) (shape x),
                item = (\<lambda>idx. \<Sum>j\<leftarrow>[0..<shape x ! axis].
                                 item x (take axis idx @ [j] @ drop axis idx))\<rparr>
      else Inl AxisOutOfRange)"

text \<open>
  \<^verbatim>\<open>
  def apply(self, dayofyear, result_callback=None):
      periods = dayofyear / self.days_in_period
      model = pm.modelcontext(None)
      model.add_coord(self.prefix, self.nodes)
      beta = self.prior.create_variable(self.variable_name)
      fourier_modes = generate_fourier_modes(periods=periods, n_order=self.n_order)
      DUMMY_DIM = "DATE"
      prefix_idx = self.prior.dims.index(self.prefix)
      result_dims = (DUMMY_DIM, *self.prior.dims)
      dim_handler = create_dim_handler(result_dims)
      result = dim_handler(fourier_modes, (DUMMY_DIM, self.prefix)) * dim_handler(
          beta, self.prior.dims
      )
      if result_callback is not None:
          result_callback(result)
      return result.sum(axis=prefix_idx + 1)
  \<close>
  The coordinates of the model in context are \<open>cs\<close>, the values of the weights are
  \<open>beta_values\<close>; no callback is passed.
\<close>

definition FourierBase_apply ::
  "FourierBase \<Rightarrow> heap \<Rightarrow> coords \<Rightarrow> (nat list \<Rightarrow> real) \<Rightarrow> real list \<Rightarrow> error + tensor" where
  "FourierBase_apply self h cs beta_values dayofyear =
     (let periods = map (\<lambda>d. d / days_in_period self) dayofyear;
          prior_dims = dims (h ! prior self)
      in case add_coord cs (prefix self) (Labels (nodes self)) of
           Inl e \<Rightarrow> Inl e
         | Inr cs \<Rightarrow>
       (case create_variable cs prior_dims beta_values of
           Inl e \<Rightarrow> Inl e
         | Inr beta \<Rightarrow>
       (let fourier_modes = matrix_tensor (2 * nat (n_order self))
                              (generate_fourier_modes periods (n_order self));
            DUMMY_DIM = ''DATE''
        in case index_of (prefix self) prior_dims of
             None \<Rightarrow> Inl NotInTuple
           | Some prefix_idx \<Rightarrow>
         (let result_dims = DUMMY_DIM # prior_dims;
              dim_handler = create_dim_handler result_dims
          in case dim_handler fourier_modes [DUMMY_DIM, prefix self] of
               Inl e \<Rightarrow> Inl e
             | Inr aligned_modes \<Rightarrow>
           (case dim_handler beta prior_dims of
               Inl e \<Rightarrow> Inl e
             | Inr aligned_beta \<Rightarrow>
           (case tensor_mul aligned_modes aligned_beta of
               Inl e \<Rightarrow> Inl e
             | Inr result \<Rightarrow> tensor_sum result (prefix_idx + 1)))))))"

text \<open>
  \<^verbatim>\<open>np.arange(stop)\<close> for a float \<^verbatim>\<open>stop\<close>: the numbers \<open>0, 1, ...\<close> below \<^verbatim>\<open>stop\<close>.
\<close>

definition np_arange :: "real \<Rightarrow> real list" where
  "np_arange stop = map real [0..<nat \<lceil>stop\<rceil>]"

text \<open>\<^verbatim>\<open>d[k] = v\<close> on a dictionary that keeps the order of insertion.\<close>

definition dict_set :: "('k \<times> 'v) list \<Rightarrow> 'k \<Rightarrow> 'v \<Rightarrow> ('k \<times> 'v) list" where
  "dict_set d k v =
     (if k \<in> fst ` set d then map (\<lambda>(k', v'). if k' = k then (k', v) else (k', v')) d
      else d @ [(k, v)])"

text \<open>
  \<^verbatim>\<open>
  def sample_curve(self, parameters):
      full_period = np.arange(self.days_in_period + 1)
      coords = {"day": full_period}
      for key, values in parameters[self.variable_name].coords.items():
          if key in {"chain", "draw", self.prefix}:
              continue
          coords[key] = values.to_numpy()
      with pm.Model(coords=coords):
          name = f"{self.prefix}_trend"
          pm.Deterministic(name, self.apply(dayofyear=full_period), dims=tuple(coords.keys()))
          return pm.sample_posterior_predictive(
              parameters, var_names=[name]).posterior_predictive[name]
  \<close>
  \<open>param_coords\<close> are the coordinates of \<^verbatim>\<open>parameters[self.variable_name]\<close>. The
  sampling collaborator evaluates the deterministic once for each chain and draw of the
  parameters; \<open>sample_curve\<close> is that value for one draw, whose weights are
  \<open>beta_values\<close>.
\<close>

definition full_period :: "FourierBase \<Rightarrow> real list" where
  "full_period self = np_arange (days_in_period self + 1)"

definition sample_curve_coords :: "FourierBase \<Rightarrow> coords \<Rightarrow> coords" where
  "sample_curve_coords self param_coords =
     fold (\<lambda>(key, vs) cs.
             if key \<in> {''chain'', ''draw'', prefix self} then cs else dict_set cs key vs)
          param_coords [(''day'', Numeric (full_period self))]"

definition sample_curve ::
  "FourierBase \<Rightarrow> heap \<Rightarrow> coords \<Rightarrow> (nat list \<Rightarrow> real) \<Rightarrow> error + tensor" where
  "sample_curve self h param_coords beta_values =
     FourierBase_apply self h (sample_curve_coords self param_coords) beta_values
       (full_period self)"

section \<open>Properties of the feature generator\<close>

lemma length_arange: "length (arange a b) = nat (b - a)"
  by (simp add: arange_def)

lemma nth_arange: "c < nat (b - a) \<Longrightarrow> arange a b ! c = a + int c"
  by (simp add: arange_def)

lemma length_generate_fourier_modes:
  "length (generate_fourier_modes periods n) = length periods"
  by (simp add: generate_fourier_modes_def)

lemma length_row_generate_fourier_modes:
  "p < length periods \<Longrightarrow> length (generate_fourier_modes periods n ! p) = 2 * nat n"
  by (simp add: generate_fourier_modes_def length_arange)

lemma sin_column:
  "p < length periods \<Longrightarrow> c < nat n \<Longrightarrow>
   generate_fourier_modes periods n ! p ! c = sin (2 * pi * periods ! p * real (c + 1))"
  by (simp add: generate_fourier_modes_def length_arange nth_append nth_arange)

lemma cos_column:
  "p < length periods \<Longrightarrow> c < nat n \<Longrightarrow>
   generate_fourier_modes periods n ! p ! (nat n + c) = cos (2 * pi * periods ! p * real (c + 1))"
  by (simp add: generate_fourier_modes_def length_arange nth_append nth_arange)

text \<open>
  C1. For \<open>n_order \<ge> 1\<close> and an input of length \<open>L\<close> the result has \<open>L\<close> rows of
  \<open>2 * n_order\<close> entries each; the entry in row \<open>p\<close>, column \<open>c\<close> is
  \<open>sin (2 pi periods[p] (c + 1))\<close> for \<open>c < n\<close> and
  \<open>cos (2 pi periods[p] (c - n + 1))\<close> for \<open>n \<le> c < 2 n\<close>.
\<close>

theorem generate_fourier_modes_entries:
  assumes "1 \<le> n"
  shows "length (generate_fourier_modes periods n) = length periods \<and>
         (\<forall>p < length periods.
            length (generate_fourier_modes periods n ! p) = nat (2 * n) \<and>
            (\<forall>c < nat (2 * n).
               generate_fourier_modes periods n ! p ! c =
                 (if c < nat n
                  then sin (2 * pi * periods ! p * real (c + 1))
                  else cos (2 * pi * periods ! p * real (c - nat n + 1)))))"
proof (intro conjI allI impI)
  show "length (generate_fourier_modes periods n) = length periods"
    by (rule length_generate_fourier_modes)
next
  fix p assume "p < length periods"
  then show "length (generate_fourier_modes periods n ! p) = nat (2 * n)"
    using assms by (simp add: length_row_generate_fourier_modes nat_mult_distrib)
next
  fix p c assume p: "p < length periods" and c: "c < nat (2 * n)"
  show "generate_fourier_modes periods n ! p ! c =
          (if c < nat n
           then sin (2 * pi * periods ! p * real (c + 1))
           else cos (2 * pi * periods ! p * real (c - nat n + 1)))"
  proof (cases "c < nat n")
    case True
    then show ?thesis using p by (simp add: sin_column)
  next
    case False
    define d where "d = c - nat n"
    have d: "d < nat n" and cd: "c = nat n + d"
      using False c assms by (auto simp: d_def)
    show ?thesis
      using cos_column [OF p d] False by (simp add: cd)
  qed
qed

theorem generate_fourier_modes_entries_witness:
  "(1::int) \<le> 1 \<and> length (generate_fourier_modes [0] 1) = 1 \<and>
   length (generate_fourier_modes [0] 1 ! 0) = 2 \<and>
   generate_fourier_modes [0] 1 ! 0 ! 0 = 0 \<and>
   generate_fourier_modes [0] 1 ! 0 ! 1 = 1"
proof -
  have h: "(1::int) \<le> 1" by simp
  have two: "nat (2 * 1) = Suc (Suc 0)" by simp
  show ?thesis
    using generate_fourier_modes_entries [OF h, of "[0]"]
    by (simp add: two All_less_Suc del: One_nat_def)
qed

text \<open>
  C4. Pythagorean identity: in every row the squares of column \<open>sin_k\<close> and of column
  \<open>cos_k\<close> add up to one, for each harmonic \<open>k\<close> in \<open>1..n\<close> (exactly, over the
  reals).
\<close>

theorem generate_fourier_modes_pythagoras:
  assumes "1 \<le> n" and "p < length periods" and "1 \<le> k" and "k \<le> nat n"
  shows "(generate_fourier_modes periods n ! p ! (k - 1))\<^sup>2 +
         (generate_fourier_modes periods n ! p ! (nat n + k - 1))\<^sup>2 = 1"
proof -
  have c: "k - 1 < nat n" using assms by simp
  have eq: "nat n + k - 1 = nat n + (k - 1)" using assms by simp
  show ?thesis
    unfolding eq
    by (simp only: sin_column [OF assms(2) c] cos_column [OF assms(2) c] sin_cos_squared_add)
qed

theorem generate_fourier_modes_pythagoras_witness:
  "(1::int) \<le> 1 \<and> (0::nat) < length [1/8 :: real] \<and> (1::nat) \<le> 1 \<and> (1::nat) \<le> nat 1 \<and>
   (generate_fourier_modes [1/8] 1 ! 0 ! 0)\<^sup>2 + (generate_fourier_modes [1/8] 1 ! 0 ! 1)\<^sup>2 = 1"
proof -
  have h1: "(1::int) \<le> 1" and h2: "(0::nat) < length [1/8 :: real]"
    and h3: "(1::nat) \<le> 1" and h4: "(1::nat) \<le> nat 1"
    by simp_all
  show ?thesis
    using generate_fourier_modes_pythagoras [OF h1 h2 h3 h4] by simp
qed

text \<open>
  C5. Every entry of the matrix returned by \<open>generate_fourier_modes\<close> lies in the
  closed interval from \<open>-1\<close> to \<open>1\<close>.
\<close>

theorem generate_fourier_modes_range:
  assumes "1 \<le> n" and "p < length (generate_fourier_modes periods n)"
    and "c < length (generate_fourier_modes periods n ! p)"
  shows "- 1 \<le> generate_fourier_modes periods n ! p ! c \<and>
         generate_fourier_modes periods n ! p ! c \<le> 1"
proof -
  have p: "p < length periods"
    using assms(2) by (simp add: length_generate_fourier_modes)
  have c: "c < 2 * nat n"
    using assms(3) p by (simp add: length_row_generate_fourier_modes)
  show ?thesis
  proof (cases "c < nat n")
    case True
    then show ?thesis using p by (simp add: sin_column)
  next
    case False
    define d where "d = c - nat n"
    have d: "d < nat n" and cd: "c = nat n + d"
      using False c by (auto simp: d_def)
    show ?thesis
      unfolding cd by (simp add: cos_column [OF p d])
  qed
qed

theorem generate_fourier_modes_range_witness:
  "(1::int) \<le> 1 \<and> 0 < length (generate_fourier_modes [1/4] 1) \<and>
   0 < length (generate_fourier_modes [1/4] 1 ! 0) \<and>
   - 1 \<le> generate_fourier_modes [1/4] 1 ! 0 ! 0 \<and>
   generate_fourier_modes [1/4] 1 ! 0 ! 0 \<le> 1"
proof -
  have h1: "(1::int) \<le> 1" by simp
  have h2: "0 < length (generate_fourier_modes [1/4] 1)"
    by (simp add: length_generate_fourier_modes)
  have h3: "0 < length (generate_fourier_modes [1/4] 1 ! 0)"
    by (simp add: length_row_generate_fourier_modes)
  show ?thesis
    using h1 h2 h3 generate_fourier_modes_range [OF h1 h2 h3] by simp
qed

section \<open>The labels of the harmonic axis\<close>

lemma nodes_eq:
  "nodes self = map (\<lambda>i. ''sin_'' @ str_int i) [1..n_order self] @
                map (\<lambda>i. ''cos_'' @ str_int i) [1..n_order self]"
  by (simp add: nodes_def arange_def)

lemma length_nodes: "length (nodes self) = 2 * nat (n_order self)"
  by (simp add: nodes_eq)

lemma nodes_sin:
  "c < nat (n_order self) \<Longrightarrow> nodes self ! c = ''sin_'' @ str_int (int c + 1)"
  by (simp add: nodes_eq nth_append add.commute)

lemma nodes_cos:
  "c < nat (n_order self) \<Longrightarrow> nodes self ! (nat (n_order self) + c) = ''cos_'' @ str_int (int c + 1)"
  by (simp add: nodes_eq nth_append add.commute)

lemma nodes_two:
  "n_order self = 2 \<Longrightarrow> nodes self = [''sin_1'', ''sin_2'', ''cos_1'', ''cos_2'']"
  by (simp add: nodes_eq upto.simps str_int_def str_nat.simps digit_char_def)

text \<open>
  C3. For \<open>n_order \<ge> 1\<close> the labels are \<open>sin_1, ..., sin_n_order, cos_1, ..., cos_n_order\<close>
  in that order, there are \<open>2 * n_order\<close> of them, and the label at position \<open>c\<close>
  names column \<open>c\<close> of the matrix of \<open>generate_fourier_modes\<close>: label \<open>sin_k\<close> stands
  where the column holds \<open>sin (2 pi p k)\<close>, label \<open>cos_k\<close> where it holds
  \<open>cos (2 pi p k)\<close>. For \<open>n_order = 2\<close> the labels are \<open>sin_1, sin_2, cos_1, cos_2\<close>.
\<close>

theorem nodes_labels:
  assumes "1 \<le> n_order self"
  shows "nodes self = map (\<lambda>i. ''sin_'' @ str_int i) [1..n_order self] @
                      map (\<lambda>i. ''cos_'' @ str_int i) [1..n_order self] \<and>
         length (nodes self) = nat (2 * n_order self) \<and>
         (\<forall>c < nat (2 * n_order self). \<forall>p < length periods.
            (if c < nat (n_order self)
             then nodes self ! c = ''sin_'' @ str_int (int c + 1) \<and>
                  generate_fourier_modes periods (n_order self) ! p ! c =
                    sin (2 * pi * periods ! p * real_of_int (int c + 1))
             else nodes self ! c = ''cos_'' @ str_int (int c - n_order self + 1) \<and>
                  generate_fourier_modes periods (n_order self) ! p ! c =
                    cos (2 * pi * periods ! p * real_of_int (int c - n_order self + 1)))) \<and>
         (n_order self = 2 \<longrightarrow> nodes self = [''sin_1'', ''sin_2'', ''cos_1'', ''cos_2''])"
proof (intro conjI allI impI)
  show "nodes self = map (\<lambda>i. ''sin_'' @ str_int i) [1..n_order self] @
                     map (\<lambda>i. ''cos_'' @ str_int i) [1..n_order self]"
    by (rule nodes_eq)
next
  show "length (nodes self) = nat (2 * n_order self)"
    using assms by (simp add: length_nodes nat_mult_distrib)
next
  assume "n_order self = 2"
  then show "nodes self = [''sin_1'', ''sin_2'', ''cos_1'', ''cos_2'']"
    by (rule nodes_two)
next
  fix c p assume c: "c < nat (2 * n_order self)" and p: "p < length periods"
  show "if c < nat (n_order self)
        then nodes self ! c = ''sin_'' @ str_int (int c + 1) \<and>
             generate_fourier_modes periods (n_order self) ! p ! c =
               sin (2 * pi * periods ! p * real_of_int (int c + 1))
        else nodes self ! c = ''cos_'' @ str_int (int c - n_order self + 1) \<and>
             generate_fourier_modes periods (n_order self) ! p ! c =
               cos (2 * pi * periods ! p * real_of_int (int c - n_order self + 1))"
  proof (cases "c < nat (n_order self)")
    case True
    then show ?thesis using p by (simp add: nodes_sin sin_column add.commute)
  next
    case False
    define d where "d = c - nat (n_order self)"
    have d: "d < nat (n_order self)" and cd: "c = nat (n_order self) + d"
      using False c assms by (auto simp: d_def)
    have i: "int c - n_order self + 1 = int d + 1"
      using assms by (simp add: cd)
    show ?thesis
      using False nodes_cos [OF d] cos_column [OF p d]
      unfolding i by (simp add: cd add.commute)
  qed
qed

theorem nodes_labels_witness:
  "1 \<le> n_order \<lparr>n_order = 2, prefix = ''fourier'', prior = 1,
                     variable_name = ''fourier_beta'', days_in_period = DAYS_IN_YEAR\<rparr> \<and>
   nodes \<lparr>n_order = 2, prefix = ''fourier'', prior = 1,
          variable_name = ''fourier_beta'', days_in_period = DAYS_IN_YEAR\<rparr> =
     [''sin_1'', ''sin_2'', ''cos_1'', ''cos_2'']"
proof -
  have h: "1 \<le> n_order \<lparr>n_order = 2, prefix = ''fourier'', prior = 1,
                     variable_name = ''fourier_beta'', days_in_period = DAYS_IN_YEAR\<rparr>"
    by simp
  show ?thesis
    using h nodes_labels [OF h, THEN conjunct2, THEN conjunct2, THEN conjunct2] by simp
qed

section \<open>The constructor\<close>

lemma init_invalid:
  "\<not> (\<exists>i. int_value n = Some i \<and> 1 \<le> i) \<Longrightarrow>
   FourierBase_init d h n pfx pr nm = (Inl InvalidOrder, h)"
  by (cases "int_value n") (auto simp: FourierBase_init_def isinstance_int_def)

lemma init_valid:
  "int_value n = Some i \<Longrightarrow> 1 \<le> i \<Longrightarrow>
   FourierBase_init d h n pfx pr nm =
     (let self_prefix = str_or pfx class_prefix;
          self_prior = (case pr of None \<Rightarrow> default_prior | Some a \<Rightarrow> a);
          self_name = str_or nm (self_prefix @ ''_beta'')
      in if self_name = self_prefix then (Inl NameCollision, h)
         else if dims (h ! self_prior) = []
         then (Inr \<lparr>n_order = i, prefix = self_prefix, prior = length h,
                     variable_name = self_name, days_in_period = d\<rparr>,
               h @ [(h ! self_prior)\<lparr>dims := [self_prefix]\<rparr>])
         else if self_prefix \<notin> set (dims (h ! self_prior)) then (Inl MissingAxis, h)
         else (Inr \<lparr>n_order = i, prefix = self_prefix, prior = self_prior,
                     variable_name = self_name, days_in_period = d\<rparr>, h))"
  by (simp add: FourierBase_init_def isinstance_int_def Let_def deepcopy_def Prior_new_def
      set_dims_def)



text \<open>
  C7. The constructor raises the error of an invalid order exactly when \<open>n_order\<close> is
  not a positive integer, whatever the other arguments are; the check comes first, so
  the store is as it was and no object is returned.
\<close>

theorem init_invalid_order:
  "(fst (FourierBase_init d h n pfx pr nm) = Inl InvalidOrder) =
     (\<not> (\<exists>i. int_value n = Some i \<and> 1 \<le> i)) \<and>
   (\<not> (\<exists>i. int_value n = Some i \<and> 1 \<le> i) \<longrightarrow>
      FourierBase_init d h n pfx pr nm = (Inl InvalidOrder, h))"
proof (cases "\<exists>i. int_value n = Some i \<and> 1 \<le> i")
  case True
  then obtain i where i: "int_value n = Some i" "1 \<le> i" by blast
  have "fst (FourierBase_init d h n pfx pr nm) \<noteq> Inl InvalidOrder"
    by (simp add: init_valid [OF i] Let_def)
  with True show ?thesis by simp
next
  case False
  then show ?thesis by (simp add: init_invalid)
qed

theorem init_invalid_order_witness:
  "YearlyFourier initial_heap (PyInt 0) None None None = (Inl InvalidOrder, initial_heap) \<and>
   YearlyFourier initial_heap (PyInt (- 100)) None None None = (Inl InvalidOrder, initial_heap) \<and>
   YearlyFourier initial_heap (PyFloat 2.5) None None None = (Inl InvalidOrder, initial_heap) \<and>
   fst (YearlyFourier initial_heap (PyInt 2) None None None) \<noteq> Inl InvalidOrder"
  using init_invalid_order [of DAYS_IN_YEAR initial_heap "PyInt 0" None None None]
    init_invalid_order [of DAYS_IN_YEAR initial_heap "PyInt (- 100)" None None None]
    init_invalid_order [of DAYS_IN_YEAR initial_heap "PyFloat 2.5" None None None]
    init_invalid_order [of DAYS_IN_YEAR initial_heap "PyInt 2" None None None]
  by (simp add: YearlyFourier_def)



text \<open>
  C8, as the code has it. With a valid order, a variable name that differs from the
  prefix and a prior whose declared axes are not empty and do not include the prefix,
  the constructor raises the missing-axis error and leaves the store as it was. (A
  prior without declared axes is not an error: the constructor gives it the prefix as
  its only axis.)
\<close>

theorem init_missing_axis:
  assumes "int_value n = Some i" and "1 \<le> i"
    and "str_or nm (str_or pfx class_prefix @ ''_beta'') \<noteq> str_or pfx class_prefix"
    and "dims (h ! a) \<noteq> []"
    and "str_or pfx class_prefix \<notin> set (dims (h ! a))"
  shows "FourierBase_init d h n pfx (Some a) nm = (Inl MissingAxis, h)"
  using assms(3-5) by (simp add: init_valid [OF assms(1,2)] Let_def)

text \<open>
  The caller of \<^verbatim>\<open>test_prior_doesnt_have_prefix\<close>:
  \<^verbatim>\<open>YearlyFourier(n_order=2, prior=Prior("Normal", dims="hierarchy"))\<close>.
\<close>

theorem init_missing_axis_witness:
  "int_value (PyInt 2) = Some 2 \<and> (1::int) \<le> 2 \<and>
   str_or None (str_or None class_prefix @ ''_beta'') \<noteq> str_or None class_prefix \<and>
   dims ((initial_heap @ [\<lparr>distribution = ''Normal'', parameters = [],
                           dims = [''hierarchy'']\<rparr>]) ! 1) \<noteq> [] \<and>
   str_or None class_prefix \<notin>
     set (dims ((initial_heap @ [\<lparr>distribution = ''Normal'', parameters = [],
                                  dims = [''hierarchy'']\<rparr>]) ! 1)) \<and>
   YearlyFourier (initial_heap @ [\<lparr>distribution = ''Normal'', parameters = [],
                                  dims = [''hierarchy'']\<rparr>]) (PyInt 2) None (Some 1) None =
     (Inl MissingAxis, initial_heap @ [\<lparr>distribution = ''Normal'', parameters = [],
                                        dims = [''hierarchy'']\<rparr>])"
proof -
  let ?h = "initial_heap @ [\<lparr>distribution = ''Normal'', parameters = [],
                            dims = [''hierarchy'']\<rparr>]"
  have h1: "int_value (PyInt 2) = Some 2" and h2: "(1::int) \<le> 2"
    and h3: "str_or None (str_or None class_prefix @ ''_beta'') \<noteq> str_or None class_prefix"
    and h4: "dims (?h ! 1) \<noteq> []"
    and h5: "str_or None class_prefix \<notin> set (dims (?h ! 1))"
    by (simp_all add: str_or_def class_prefix_def initial_heap_def)
  show ?thesis
    using h1 h2 h3 h4 h5 init_missing_axis [OF h1 h2 h3 h4 h5, of DAYS_IN_YEAR]
    by (simp add: YearlyFourier_def)
qed

text \<open>
  C8 as stated fails: the prior \<^verbatim>\<open>Prior("Normal")\<close> of \<^verbatim>\<open>test_prior_without_dims\<close>
  declares no axes, so its axes do not include the prefix, and
  \<^verbatim>\<open>YearlyFourier(n_order=2, prior=prior)\<close> raises nothing.
\<close>

theorem init_missing_axis_counterexample:
  "class_prefix \<notin>
     set (dims ((initial_heap @ [\<lparr>distribution = ''Normal'', parameters = [], dims = []\<rparr>]) ! 1)) \<and>
   fst (YearlyFourier (initial_heap @ [\<lparr>distribution = ''Normal'', parameters = [], dims = []\<rparr>])
          (PyInt 2) None (Some 1) None) =
     Inr \<lparr>n_order = 2, prefix = ''fourier'', prior = 2, variable_name = ''fourier_beta'',
          days_in_period = DAYS_IN_YEAR\<rparr>"
  by (simp add: YearlyFourier_def FourierBase_init_def isinstance_int_def str_or_def
      class_prefix_def initial_heap_def deepcopy_def Prior_new_def set_dims_def Let_def)

text \<open>
  C10. With a valid order and a variable name that differs from the prefix, a prior
  without declared axes raises no error: the component's prior is a new object, a copy
  of the caller's whose axes are the prefix alone, and every object that was in the
  store, the caller's prior among them, is as it was (its axes still empty).
\<close>

theorem init_prior_without_dims:
  assumes "int_value n = Some i" and "1 \<le> i"
    and "str_or nm (str_or pfx class_prefix @ ''_beta'') \<noteq> str_or pfx class_prefix"
    and "a < length h"
    and "dims (h ! a) = []"
  shows "\<exists>self h'. FourierBase_init d h n pfx (Some a) nm = (Inr self, h') \<and>
           prior self \<noteq> a \<and> prior self < length h' \<and>
           h' ! prior self = (h ! a)\<lparr>dims := [prefix self]\<rparr> \<and>
           dims (h' ! prior self) = [prefix self] \<and>
           prefix self = str_or pfx class_prefix \<and>
           take (length h) h' = h \<and>
           h' ! a = h ! a \<and> dims (h' ! a) = []"
  using assms(3-5) by (simp add: init_valid [OF assms(1,2)] Let_def nth_append)

theorem init_prior_without_dims_witness:
  "int_value (PyInt 2) = Some 2 \<and> (1::int) \<le> 2 \<and>
   str_or None (str_or None class_prefix @ ''_beta'') \<noteq> str_or None class_prefix \<and>
   1 < length (initial_heap @ [\<lparr>distribution = ''Normal'', parameters = [], dims = []\<rparr>]) \<and>
   dims ((initial_heap @ [\<lparr>distribution = ''Normal'', parameters = [], dims = []\<rparr>]) ! 1) = [] \<and>
   (\<exists>self h'. YearlyFourier (initial_heap @ [\<lparr>distribution = ''Normal'', parameters = [], dims = []\<rparr>])
                 (PyInt 2) None (Some 1) None = (Inr self, h') \<and>
      dims (h' ! prior self) = [prefix self] \<and> dims (h' ! 1) = [])"
proof -
  let ?h = "initial_heap @ [\<lparr>distribution = ''Normal'', parameters = [], dims = []\<rparr>]"
  have h1: "int_value (PyInt 2) = Some 2" and h2: "(1::int) \<le> 2"
    and h3: "str_or None (str_or None class_prefix @ ''_beta'') \<noteq> str_or None class_prefix"
    and h4: "1 < length ?h"
    and h5: "dims (?h ! 1) = []"
    by (simp_all add: str_or_def class_prefix_def initial_heap_def)
  show ?thesis
    using h1 h2 h3 h4 h5 init_prior_without_dims [OF h1 h2 h3 h4 h5, of DAYS_IN_YEAR]
    unfolding YearlyFourier_def by blast
qed

section \<open>Positions in tuples\<close>

lemma index_of_None: "(index_of x xs = None) = (x \<notin> set xs)"
  by (induction xs) (auto split: option.splits)

lemma index_of_Some: "index_of x xs = Some k \<Longrightarrow> k < length xs \<and> xs ! k = x"
  by (induction xs arbitrary: k) (auto split: option.splits if_splits)

lemma index_of_nth_distinct:
  "distinct xs \<Longrightarrow> i < length xs \<Longrightarrow> index_of (xs ! i) xs = Some i"
proof (induction xs arbitrary: i)
  case Nil
  then show ?case by simp
next
  case (Cons y ys)
  show ?case
  proof (cases i)
    case 0
    then show ?thesis by simp
  next
    case (Suc j)
    with Cons.prems have j: "j < length ys" and d: "distinct ys" and y: "y \<notin> set ys"
      by simp_all
    from j y have "ys ! j \<noteq> y" by (metis nth_mem)
    with Cons.IH [OF d j] Suc show ?thesis by simp
  qed
qed

lemma map_index_nth:
  assumes "distinct ds" and "length idx = length ds"
  shows "map (\<lambda>d. idx ! the (index_of d ds)) ds = idx"
proof (rule nth_equalityI)
  show "length (map (\<lambda>d. idx ! the (index_of d ds)) ds) = length idx"
    using assms(2) by simp
next
  fix i assume "i < length (map (\<lambda>d. idx ! the (index_of d ds)) ds)"
  then have i: "i < length ds" by simp
  then show "map (\<lambda>d. idx ! the (index_of d ds)) ds ! i = idx ! i"
    by (simp add: index_of_nth_distinct [OF assms(1) i])
qed

lemma map_index_nth_Cons:
  assumes "distinct ds" and "length idx = length ds" and "x \<notin> set ds"
  shows "map (\<lambda>d. (p # idx) ! the (index_of d (x # ds))) ds = idx"
proof -
  have "map (\<lambda>d. (p # idx) ! the (index_of d (x # ds))) ds =
        map (\<lambda>d. idx ! the (index_of d ds)) ds"
  proof (rule map_cong [OF refl])
    fix d assume d: "d \<in> set ds"
    then obtain k where k: "index_of d ds = Some k"
      using index_of_None [of d ds] by (cases "index_of d ds") auto
    from d assms(3) have "d \<noteq> x" by auto
    then show "(p # idx) ! the (index_of d (x # ds)) = idx ! the (index_of d ds)"
      using k by simp
  qed
  then show ?thesis by (simp add: map_index_nth [OF assms(1,2)])
qed

section \<open>Aligning the operands\<close>

lemma handle_dims_beta:
  assumes "distinct ds" and "x \<notin> set ds" and "length (shape B) = length ds"
  shows "\<exists>t. handle_dims B ds (x # ds) = Inr t \<and> shape t = 1 # shape B \<and>
             (\<forall>p idx. length idx = length ds \<longrightarrow> item t (p # idx) = item B idx)"
proof -
  have shp: "map (\<lambda>d. case index_of d ds of None \<Rightarrow> 1 | Some i \<Rightarrow> shape B ! i) ds = shape B"
  proof (rule nth_equalityI)
    show "length (map (\<lambda>d. case index_of d ds of None \<Rightarrow> 1 | Some i \<Rightarrow> shape B ! i) ds) =
          length (shape B)"
      using assms(3) by simp
  next
    fix i assume "i < length (map (\<lambda>d. case index_of d ds of None \<Rightarrow> 1 | Some i \<Rightarrow> shape B ! i) ds)"
    then have i: "i < length ds" by simp
    then show "map (\<lambda>d. case index_of d ds of None \<Rightarrow> 1 | Some i \<Rightarrow> shape B ! i) ds ! i =
               shape B ! i"
      by (simp add: index_of_nth_distinct [OF assms(1) i])
  qed
  have hd: "index_of x ds = None"
    using assms(2) by (simp add: index_of_None)
  have sub: "set ds \<subseteq> set (x # ds)" by auto
  show ?thesis
    unfolding handle_dims_def
    using assms sub
    by (simp add: hd shp map_index_nth_Cons del: index_of.simps)
qed

lemma handle_dims_modes:
  assumes "index_of pfx ds = Some k" and "x \<notin> set ds"
  shows "\<exists>t. handle_dims F [x, pfx] (x # ds) = Inr t \<and>
             shape t = (shape F ! 0) # map (\<lambda>d. if d = pfx then shape F ! 1 else 1) ds \<and>
             (\<forall>I. item t I = item F [I ! 0, I ! Suc k])"
proof -
  from assms(1) have mem: "pfx \<in> set ds"
    using index_of_None [of pfx ds] by auto
  with assms(2) have ne: "pfx \<noteq> x" by auto
  have shp: "map (\<lambda>d. case index_of d [x, pfx] of None \<Rightarrow> 1 | Some i \<Rightarrow> shape F ! i) ds =
             map (\<lambda>d. if d = pfx then shape F ! 1 else 1) ds"
  proof (rule map_cong [OF refl])
    fix d assume "d \<in> set ds"
    with assms(2) have "d \<noteq> x" by auto
    then show "(case index_of d [x, pfx] of None \<Rightarrow> 1 | Some i \<Rightarrow> shape F ! i) =
               (if d = pfx then shape F ! 1 else 1)"
      by simp
  qed
  have sub: "set [x, pfx] \<subseteq> set (x # ds)" using mem by auto
  have i0: "index_of x (x # ds) = Some 0" by simp
  have i1: "index_of pfx (x # ds) = Some (Suc k)" using ne assms(1) by simp
  have i2: "index_of x [x, pfx] = Some 0" by simp
  show ?thesis
    unfolding handle_dims_def
    using sub by (simp add: shp i0 i1 i2 del: index_of.simps)
qed

section \<open>Broadcasting and reduction\<close>

lemma broadcast_index_Cons:
  "broadcast_index (s # ss) (i # is) = (if s = 1 then 0 else i) # broadcast_index ss is"
  by (simp add: broadcast_index_def)

lemma length_broadcast_index:
  "length (broadcast_index ss is) = min (length ss) (length is)"
  by (simp add: broadcast_index_def)

lemma nth_broadcast_index:
  "k < length ss \<Longrightarrow> k < length is \<Longrightarrow>
   broadcast_index ss is ! k = (if ss ! k = 1 then 0 else is ! k)"
  by (simp add: broadcast_index_def)

lemma broadcast_index_in_bounds:
  assumes "list_all2 (<) is ss"
  shows "broadcast_index ss is = is"
proof (rule nth_equalityI)
  show "length (broadcast_index ss is) = length is"
    using assms by (simp add: length_broadcast_index list_all2_lengthD)
next
  fix k assume "k < length (broadcast_index ss is)"
  then have k: "k < length ss" "k < length is"
    by (simp_all add: length_broadcast_index)
  from assms k have "is ! k < ss ! k" by (simp add: list_all2_nthD)
  then show "broadcast_index ss is ! k = is ! k"
    using k by (auto simp: nth_broadcast_index)
qed

lemma list_all2_insert:
  assumes "list_all2 P xs (take k ys @ drop (Suc k) ys)" and "k < length ys" and "P x (ys ! k)"
  shows "list_all2 P (take k xs @ [x] @ drop k xs) ys"
proof -
  have len: "length xs = length ys - 1"
    using assms(1,2) by (auto dest!: list_all2_lengthD)
  then have kx: "k \<le> length xs" using assms(2) by simp
  have a: "list_all2 P (take k xs) (take k ys)"
    using list_all2_takeI [OF assms(1), of k] assms(2) by simp
  have b: "list_all2 P (drop k xs) (drop (Suc k) ys)"
    using list_all2_dropI [OF assms(1), of k] assms(2) by simp
  have "list_all2 P (take k xs @ [x] @ drop k xs) (take k ys @ [ys ! k] @ drop (Suc k) ys)"
    using a b assms(3) by (intro list_all2_appendI) simp_all
  then show ?thesis
    using assms(2) by (simp add: id_take_nth_drop [symmetric])
qed

lemma remove1_index_of:
  "index_of x xs = Some k \<Longrightarrow> remove1 x xs = take k xs @ drop (Suc k) xs"
  by (induction xs arbitrary: k) (auto split: option.splits if_splits)

lemma tensor_mul_aligned:
  assumes "shape A = L # map f ds" and "shape B = 1 # map g ds"
    and "\<forall>d \<in> set ds. f d = g d \<or> f d = 1"
  shows "\<exists>t. tensor_mul A B = Inr t \<and> shape t = L # map g ds \<and>
             (\<forall>I. item t I = item A (broadcast_index (shape A) I) *
                              item B (broadcast_index (shape B) I))"
proof -
  have compat: "list_all2 (\<lambda>s t. s = t \<or> s = 1 \<or> t = 1) (map f ds) (map g ds)"
    using assms(3) by (auto simp: list_all2_map1 list_all2_map2 intro!: list_all2_same [THEN iffD2])
  have shp: "map2 (\<lambda>s t. if s = 1 then t else s) (map f ds) (map g ds) = map g ds"
    using assms(3) by (induction ds) auto
  show ?thesis
    unfolding tensor_mul_def assms(1,2) using compat shp by simp
qed

section \<open>The contraction\<close>

lemma add_coord_nodes:
  assumes "map_of cs name = None \<or> map_of cs name = Some vs"
  shows "\<exists>cs'. add_coord cs name vs = Inr cs' \<and> map_of cs' name = Some vs \<and>
               (\<forall>d. d \<noteq> name \<longrightarrow> map_of cs' d = map_of cs d)"
  using assms by (auto simp: add_coord_def map_add_def split: option.splits)

lemma apply_result:
  fixes self h cs beta_values dayofyear
  defines "ds \<equiv> dims (h ! prior self)"
    and "periods \<equiv> map (\<lambda>d. d / days_in_period self) dayofyear"
  assumes pfx: "prefix self \<in> set ds"
    and dist: "distinct ds"
    and date: "''DATE'' \<notin> set ds"
    and others: "\<forall>d \<in> set ds. d \<noteq> prefix self \<longrightarrow> map_of cs d \<noteq> None"
    and free: "map_of cs (prefix self) = None \<or>
               map_of cs (prefix self) = Some (Labels (nodes self))"
  shows "\<exists>t k. index_of (prefix self) ds = Some k \<and>
           FourierBase_apply self h cs beta_values dayofyear = Inr t \<and>
           shape t = length dayofyear #
                     map (\<lambda>d. coord_size (the (map_of cs d))) (remove1 (prefix self) ds) \<and>
           (\<forall>p idx. p < length dayofyear \<longrightarrow> list_all2 (<) idx (tl (shape t)) \<longrightarrow>
              item t (p # idx) =
                (\<Sum>c\<leftarrow>[0..<2 * nat (n_order self)].
                   generate_fourier_modes periods (n_order self) ! p ! c *
                   beta_values (take k idx @ [c] @ drop k idx)))"
proof -
  define N where "N = 2 * nat (n_order self)"
  define L where "L = length dayofyear"
  define modes where "modes = generate_fourier_modes periods (n_order self)"
  define F where "F = matrix_tensor N modes"
  obtain k where k: "index_of (prefix self) ds = Some k"
    using pfx index_of_None [of "prefix self" ds] by (cases "index_of (prefix self) ds") auto
  then have kl: "k < length ds" and kp: "ds ! k = prefix self"
    using index_of_Some by fastforce+
  obtain cs' where cs': "add_coord cs (prefix self) (Labels (nodes self)) = Inr cs'"
    and cs'_pfx: "map_of cs' (prefix self) = Some (Labels (nodes self))"
    and cs'_other: "\<And>d. d \<noteq> prefix self \<Longrightarrow> map_of cs' d = map_of cs d"
    using add_coord_nodes [OF free] by blast
  define g where "g = (\<lambda>d. coord_size (the (map_of cs' d)))"
  define B where "B = \<lparr>shape = map g ds, item = beta_values\<rparr>"
  have known: "\<forall>d \<in> set ds. map_of cs' d \<noteq> None"
    using others cs'_pfx cs'_other by (metis option.distinct(1))
  have B: "create_variable cs' ds beta_values = Inr B"
    using known by (simp add: create_variable_def B_def g_def)
  have g_pfx: "g (prefix self) = N"
    by (simp add: g_def cs'_pfx N_def length_nodes)
  have shape_F: "shape F = [L, N]"
    by (simp add: F_def matrix_tensor_def modes_def length_generate_fourier_modes periods_def
        L_def)
  have item_F: "\<And>a b. item F [a, b] = modes ! a ! b"
    by (simp add: F_def matrix_tensor_def)
  obtain A where A: "handle_dims F [''DATE'', prefix self] (''DATE'' # ds) = Inr A"
    and shape_A: "shape A = L # map (\<lambda>d. if d = prefix self then N else 1) ds"
    and item_A: "\<And>I. item A I = item F [I ! 0, I ! Suc k]"
    using handle_dims_modes [OF k date, of F] by (auto simp: shape_F)
  obtain B' where B': "handle_dims B ds (''DATE'' # ds) = Inr B'"
    and shape_B': "shape B' = 1 # map g ds"
    and item_B': "\<And>p idx. length idx = length ds \<Longrightarrow> item B' (p # idx) = beta_values idx"
    using handle_dims_beta [OF dist date, of B] by (auto simp: B_def)
  have compat: "\<forall>d \<in> set ds. (if d = prefix self then N else 1) = g d \<or>
                  (if d = prefix self then N else 1) = 1"
    by (simp add: g_pfx)
  obtain R where R: "tensor_mul A B' = Inr R"
    and shape_R: "shape R = L # map g ds"
    and item_R: "\<And>I. item R I = item A (broadcast_index (shape A) I) *
                                  item B' (broadcast_index (shape B') I)"
    using tensor_mul_aligned [OF shape_A shape_B' compat] by blast
  define t where "t = \<lparr>shape = take (Suc k) (shape R) @ drop (Suc (Suc k)) (shape R),
                       item = (\<lambda>idx. \<Sum>j\<leftarrow>[0..<shape R ! Suc k].
                                       item R (take (Suc k) idx @ [j] @ drop (Suc k) idx))\<rparr>"
  have sum: "tensor_sum R (k + 1) = Inr t"
    using kl by (simp add: tensor_sum_def shape_R t_def)
  have run: "FourierBase_apply self h cs beta_values dayofyear = Inr t"
    unfolding FourierBase_apply_def Let_def create_dim_handler_def
    using cs' B k A B' R sum
    by (simp add: ds_def [symmetric] periods_def [symmetric] N_def [symmetric]
        modes_def [symmetric] F_def [symmetric])
  have rem: "remove1 (prefix self) ds = take k ds @ drop (Suc k) ds"
    by (rule remove1_index_of [OF k])
  have notin: "prefix self \<notin> set (remove1 (prefix self) ds)"
    using dist by simp
  have g_rem: "map g (remove1 (prefix self) ds) =
               map (\<lambda>d. coord_size (the (map_of cs d))) (remove1 (prefix self) ds)"
  proof (rule map_cong [OF refl])
    fix d assume "d \<in> set (remove1 (prefix self) ds)"
    with notin have "d \<noteq> prefix self" by auto
    then show "g d = coord_size (the (map_of cs d))"
      by (simp add: g_def cs'_other)
  qed
  have "shape t = L # map g (take k ds @ drop (Suc k) ds)"
    by (simp add: t_def shape_R take_map drop_map)
  then have shape_t: "shape t = L # map (\<lambda>d. coord_size (the (map_of cs d)))
                                      (remove1 (prefix self) ds)"
    using g_rem rem by simp
  have S_k: "shape R ! Suc k = N"
    using kl by (simp add: shape_R kp g_pfx)
  have items: "item t (p # idx) =
                (\<Sum>c\<leftarrow>[0..<N]. modes ! p ! c * beta_values (take k idx @ [c] @ drop k idx))"
    if p: "p < L" and idx: "list_all2 (<) idx (tl (shape t))" for p idx
  proof -
    have idx': "list_all2 (<) idx (take k (map g ds) @ drop (Suc k) (map g ds))"
      using idx by (simp add: t_def shape_R)
    have summand: "item R (p # take k idx @ [c] @ drop k idx) =
                modes ! p ! c * beta_values (take k idx @ [c] @ drop k idx)"
      if c: "c < N" for c
    proof -
      define J where "J = take k idx @ [c] @ drop k idx"
      have bound: "list_all2 (<) J (map g ds)"
        unfolding J_def
        by (rule list_all2_insert [OF idx']) (use kl c in \<open>simp_all add: kp g_pfx\<close>)
      then have lenJ: "length J = length ds"
        by (auto dest: list_all2_lengthD)
      have same: "broadcast_index (map g ds) J = J"
        by (rule broadcast_index_in_bounds [OF bound])
      have Jk: "J ! k = c"
        using bound kl idx' by (auto simp: J_def nth_append dest!: list_all2_lengthD)
      have N1: "N \<noteq> 1"
        by (simp add: N_def)
      have a0: "broadcast_index (shape A) (p # J) ! 0 = p"
        using p by (simp add: shape_A broadcast_index_Cons)
      have ak: "broadcast_index (shape A) (p # J) ! Suc k = c"
        using kl lenJ N1
        by (simp add: shape_A broadcast_index_Cons nth_broadcast_index kp Jk)
      have b: "broadcast_index (shape B') (p # J) = 0 # J"
        by (simp add: shape_B' broadcast_index_Cons same)
      show ?thesis
        unfolding J_def [symmetric]
        by (simp add: item_R item_A item_F a0 ak b item_B' lenJ)
    qed
    have "item t (p # idx) =
            (\<Sum>j\<leftarrow>[0..<N]. item R (p # take k idx @ [j] @ drop k idx))"
      by (simp add: t_def S_k)
    also have "\<dots> = (\<Sum>c\<leftarrow>[0..<N]. modes ! p ! c *
                        beta_values (take k idx @ [c] @ drop k idx))"
      by (rule arg_cong [where f = sum_list], rule map_cong [OF refl]) (use summand in simp)
    finally show ?thesis .
  qed
  show ?thesis
    using k run shape_t items
    by (auto simp: L_def N_def modes_def)
qed

text \<open>
  C2. For a component whose prior declares the prefix among its (distinct) axes, none
  of them named like the sample axis \<^verbatim>\<open>"DATE"\<close>, in a model that has a coordinate for
  every other axis of the prior: \<open>apply\<close> returns a tensor whose axes are the sample
  axis, first, and then the axes of the prior without the prefix axis, in their
  declared order and with their sizes. Its entry at sample \<open>p\<close> and index \<open>idx\<close> of the
  remaining axes is the sum, over the columns \<open>c\<close> of the feature matrix of
  \<open>dayofyear / days_in_period\<close>, of feature \<open>(p, c)\<close> times the weight at \<open>idx\<close> with \<open>c\<close>
  put at the position of the prefix axis: the operands are matched by axis name,
  multiplied, and exactly the harmonic axis is summed away.
\<close>

theorem apply_contracts_harmonic_axis:
  assumes "prefix self \<in> set (dims (h ! prior self))"
    and "distinct (dims (h ! prior self))"
    and "''DATE'' \<notin> set (dims (h ! prior self))"
    and "\<forall>d \<in> set (dims (h ! prior self)). d \<noteq> prefix self \<longrightarrow> map_of cs d \<noteq> None"
    and "map_of cs (prefix self) = None \<or> map_of cs (prefix self) = Some (Labels (nodes self))"
  shows "\<exists>t k. index_of (prefix self) (dims (h ! prior self)) = Some k \<and>
           FourierBase_apply self h cs beta_values dayofyear = Inr t \<and>
           shape t = length dayofyear #
                     map (\<lambda>d. coord_size (the (map_of cs d)))
                       (remove1 (prefix self) (dims (h ! prior self))) \<and>
           (\<forall>p idx. p < length dayofyear \<longrightarrow> list_all2 (<) idx (tl (shape t)) \<longrightarrow>
              item t (p # idx) =
                (\<Sum>c\<leftarrow>[0..<2 * nat (n_order self)].
                   generate_fourier_modes (map (\<lambda>d. d / days_in_period self) dayofyear)
                     (n_order self) ! p ! c *
                   beta_values (take k idx @ [c] @ drop k idx)))"
  using apply_result [OF assms] .

text \<open>
  One day, one harmonic and a prior over \<^verbatim>\<open>("hierarchy", "fourier")\<close> with two groups:
  on day 0 the sine vanishes and the cosine is one, so the value for group 1 is the
  weight of \<^verbatim>\<open>cos_1\<close> in group 1.
\<close>

theorem apply_contracts_harmonic_axis_witness:
  "(\<exists>t. FourierBase_apply
          \<lparr>n_order = 1, prefix = ''fourier'', prior = 1, variable_name = ''fourier_beta'',
           days_in_period = DAYS_IN_YEAR\<rparr>
          (initial_heap @ [\<lparr>distribution = ''Normal'', parameters = [],
                            dims = [''hierarchy'', ''fourier'']\<rparr>])
          [(''hierarchy'', Labels [''A'', ''B''])]
          (\<lambda>idx. real (idx ! 0) + 10 * real (idx ! 1))
          [0] = Inr t \<and>
        shape t = [1, 2] \<and> item t [0, 1] = 11)"
proof -
  let ?self = "\<lparr>n_order = 1, prefix = ''fourier'', prior = 1, variable_name = ''fourier_beta'',
                days_in_period = DAYS_IN_YEAR\<rparr>"
  let ?h = "initial_heap @ [\<lparr>distribution = ''Normal'', parameters = [],
                            dims = [''hierarchy'', ''fourier'']\<rparr>]"
  let ?cs = "[(''hierarchy'', Labels [''A'', ''B''])]"
  have ds: "dims (?h ! prior ?self) = [''hierarchy'', ''fourier'']"
    by (simp add: initial_heap_def)
  have h1: "prefix ?self \<in> set (dims (?h ! prior ?self))"
    and h2: "distinct (dims (?h ! prior ?self))"
    and h3: "''DATE'' \<notin> set (dims (?h ! prior ?self))"
    and h4: "\<forall>d \<in> set (dims (?h ! prior ?self)). d \<noteq> prefix ?self \<longrightarrow> map_of ?cs d \<noteq> None"
    and h5: "map_of ?cs (prefix ?self) = None \<or>
             map_of ?cs (prefix ?self) = Some (Labels (nodes ?self))"
    unfolding ds by simp_all
  have modes: "generate_fourier_modes [0] 1 = [[0, 1]]"
    by (simp add: generate_fourier_modes_def arange_def)
  obtain t k where k: "index_of (prefix ?self) (dims (?h ! prior ?self)) = Some k"
    and run: "FourierBase_apply ?self ?h ?cs (\<lambda>idx. real (idx ! 0) + 10 * real (idx ! 1)) [0] = Inr t"
    and shp: "shape t = length [0::real] #
                 map (\<lambda>d. coord_size (the (map_of ?cs d)))
                   (remove1 (prefix ?self) (dims (?h ! prior ?self)))"
    and itm: "\<And>p idx. p < length [0::real] \<Longrightarrow> list_all2 (<) idx (tl (shape t)) \<Longrightarrow>
              item t (p # idx) =
                (\<Sum>c\<leftarrow>[0..<2 * nat (n_order ?self)].
                   generate_fourier_modes (map (\<lambda>d. d / days_in_period ?self) [0])
                     (n_order ?self) ! p ! c *
                   (real ((take k idx @ [c] @ drop k idx) ! 0) +
                    10 * real ((take k idx @ [c] @ drop k idx) ! 1)))"
    using apply_contracts_harmonic_axis [OF h1 h2 h3 h4 h5,
        of "\<lambda>idx. real (idx ! 0) + 10 * real (idx ! 1)" "[0]"]
    by blast
  have k1: "k = 1" using k unfolding ds by simp
  have shape_t: "shape t = [1, 2]"
    using shp unfolding ds by simp
  have two: "[0..<2] = [0, Suc 0]"
    by (simp add: upt_rec)
  have "item t [0, 1] = 11"
    using itm [of 0 "[1]"] by (simp add: shape_t k1 modes two)
  with run shape_t show ?thesis by blast
qed

section \<open>The curve over one period\<close>

lemma length_np_arange: "length (np_arange stop) = nat \<lceil>stop\<rceil>"
  by (simp add: np_arange_def)

lemma nth_np_arange: "i < nat \<lceil>stop\<rceil> \<Longrightarrow> np_arange stop ! i = real i"
  by (simp add: np_arange_def)

lemma length_full_period: "length (full_period self) = nat \<lceil>days_in_period self + 1\<rceil>"
  by (simp add: full_period_def length_np_arange)

lemma length_full_period_whole:
  "days_in_period self = real m \<Longrightarrow> length (full_period self) = m + 1"
proof -
  assume d: "days_in_period self = real m"
  have "\<lceil>real m + 1\<rceil> = int m + 1" by linarith
  then show ?thesis by (simp add: length_full_period d)
qed

lemma length_full_period_year:
  "days_in_period self = DAYS_IN_YEAR \<Longrightarrow> length (full_period self) = 367"
proof -
  assume d: "days_in_period self = DAYS_IN_YEAR"
  have "nat \<lceil>DAYS_IN_YEAR + 1\<rceil> = 367" by (simp add: DAYS_IN_YEAR_def)
  then show ?thesis by (simp only: length_full_period d)
qed

lemma length_full_period_month:
  "days_in_period self = DAYS_IN_MONTH \<Longrightarrow> length (full_period self) = 32"
proof -
  assume d: "days_in_period self = DAYS_IN_MONTH"
  have "nat \<lceil>DAYS_IN_MONTH + 1\<rceil> = 32" by (simp add: DAYS_IN_MONTH_def)
  then show ?thesis by (simp only: length_full_period d)
qed

lemma fold_coords_keys:
  assumes "distinct (map fst pc)" and "fst ` set pc \<inter> fst ` set cs = {}"
  shows "map fst (fold (\<lambda>(key, vs) cs. if key \<in> S then cs else dict_set cs key vs) pc cs) =
           map fst cs @ filter (\<lambda>k. k \<notin> S) (map fst pc) \<and>
         (\<forall>k \<in> fst ` set cs.
            map_of (fold (\<lambda>(key, vs) cs. if key \<in> S then cs else dict_set cs key vs) pc cs) k =
            map_of cs k) \<and>
         (\<forall>k v. (k, v) \<in> set pc \<longrightarrow> k \<notin> S \<longrightarrow>
            map_of (fold (\<lambda>(key, vs) cs. if key \<in> S then cs else dict_set cs key vs) pc cs) k =
            Some v)"
  using assms
proof (induction pc arbitrary: cs)
  case Nil
  then show ?case by simp
next
  case (Cons kv pc)
  obtain key vs where kv: "kv = (key, vs)" by (cases kv)
  let ?F = "\<lambda>(key, vs) cs. if key \<in> S then cs else dict_set cs key vs"
  from Cons.prems kv have d: "distinct (map fst pc)" and fresh: "key \<notin> fst ` set pc"
    and new: "key \<notin> fst ` set cs" and disj: "fst ` set pc \<inter> fst ` set cs = {}"
    by auto
  show ?case
  proof (cases "key \<in> S")
    case True
    have step: "fold ?F (kv # pc) cs = fold ?F pc cs"
      using True by (simp add: kv)
    have skip: "\<And>k v. (k, v) \<in> set (kv # pc) \<Longrightarrow> k \<notin> S \<Longrightarrow> (k, v) \<in> set pc"
      using True by (auto simp: kv)
    show ?thesis
      unfolding step
      using Cons.IH [OF d disj] True skip by (auto simp: kv)
  next
    case False
    define cs' where "cs' = cs @ [(key, vs)]"
    have step: "fold ?F (kv # pc) cs = fold ?F pc cs'"
      using False new by (simp add: kv dict_set_def cs'_def)
    have disj': "fst ` set pc \<inter> fst ` set cs' = {}"
      using disj fresh by (auto simp: cs'_def)
    note IH = Cons.IH [OF d disj']
    have keys: "map fst (fold ?F pc cs') = map fst cs @ filter (\<lambda>k. k \<notin> S) (map fst (kv # pc))"
      using IH False by (simp add: cs'_def kv)
    have old: "\<forall>k \<in> fst ` set cs. map_of (fold ?F pc cs') k = map_of cs k"
    proof
      fix k assume k: "k \<in> fst ` set cs"
      then have "k \<in> fst ` set cs'" by (auto simp: cs'_def)
      with IH have "map_of (fold ?F pc cs') k = map_of cs' k" by blast
      also have "\<dots> = map_of cs k"
        using k by (auto simp: cs'_def map_add_def map_of_eq_None_iff split: option.splits)
      finally show "map_of (fold ?F pc cs') k = map_of cs k" .
    qed
    have here: "map_of (fold ?F pc cs') key = Some vs"
    proof -
      have "key \<in> fst ` set cs'" by (auto simp: cs'_def image_iff)
      with IH have "map_of (fold ?F pc cs') key = map_of cs' key" by blast
      also have "\<dots> = Some vs"
      proof -
        from new have "map_of cs key = None" by (simp add: map_of_eq_None_iff)
        then show ?thesis by (simp add: cs'_def map_add_def)
      qed
      finally show ?thesis .
    qed
    have vals: "\<forall>k v. (k, v) \<in> set (kv # pc) \<longrightarrow> k \<notin> S \<longrightarrow>
                  map_of (fold ?F pc cs') k = Some v"
      using IH here by (auto simp: kv)
    show ?thesis
      unfolding step using keys old vals by blast
  qed
qed

lemma sample_curve_coords_keys:
  assumes "distinct (map fst pc)" and "''day'' \<notin> fst ` set pc"
  shows "map fst (sample_curve_coords self pc) =
           ''day'' # filter (\<lambda>k. k \<notin> {''chain'', ''draw'', prefix self}) (map fst pc)"
    and "map_of (sample_curve_coords self pc) ''day'' = Some (Numeric (full_period self))"
    and "\<And>k v. (k, v) \<in> set pc \<Longrightarrow> k \<notin> {''chain'', ''draw'', prefix self} \<Longrightarrow>
           map_of (sample_curve_coords self pc) k = Some v"
proof -
  have disj: "fst ` set pc \<inter> fst ` set [(''day'', Numeric (full_period self))] = {}"
    using assms(2) by simp
  note F = fold_coords_keys [OF assms(1) disj, of "{''chain'', ''draw'', prefix self}"]
  show "map fst (sample_curve_coords self pc) =
           ''day'' # filter (\<lambda>k. k \<notin> {''chain'', ''draw'', prefix self}) (map fst pc)"
    using F unfolding sample_curve_coords_def by simp
  show "map_of (sample_curve_coords self pc) ''day'' = Some (Numeric (full_period self))"
    using F unfolding sample_curve_coords_def by simp
  show "\<And>k v. (k, v) \<in> set pc \<Longrightarrow> k \<notin> {''chain'', ''draw'', prefix self} \<Longrightarrow>
           map_of (sample_curve_coords self pc) k = Some v"
    using F unfolding sample_curve_coords_def by blast
qed

lemma generate_fourier_modes_row:
  "p < length periods \<Longrightarrow>
   generate_fourier_modes periods n ! p = generate_fourier_modes [periods ! p] n ! 0"
  by (simp add: generate_fourier_modes_def Let_def)

lemma sample_curve_values:
  fixes self h pc beta_values
  defines "ds \<equiv> dims (h ! prior self)"
  assumes keys: "distinct (map fst pc)" and day: "''day'' \<notin> fst ` set pc"
    and pday: "prefix self \<noteq> ''day''"
    and pfx: "prefix self \<in> set ds" and dist: "distinct ds" and date: "''DATE'' \<notin> set ds"
    and known: "\<forall>d \<in> set ds. d \<noteq> prefix self \<longrightarrow> d \<in> fst ` set pc \<and> d \<notin> {''chain'', ''draw''}"
  shows "\<exists>t k. index_of (prefix self) ds = Some k \<and>
           sample_curve self h pc beta_values = Inr t \<and>
           shape t = length (full_period self) #
                     map (\<lambda>d. coord_size (the (map_of pc d))) (remove1 (prefix self) ds) \<and>
           (\<forall>p idx. p < length (full_period self) \<longrightarrow> list_all2 (<) idx (tl (shape t)) \<longrightarrow>
              item t (p # idx) =
                (\<Sum>c\<leftarrow>[0..<2 * nat (n_order self)].
                   generate_fourier_modes [real p / days_in_period self] (n_order self) ! 0 ! c *
                   beta_values (take k idx @ [c] @ drop k idx)))"
proof -
  let ?cs = "sample_curve_coords self pc"
  let ?periods = "map (\<lambda>d. d / days_in_period self) (full_period self)"
  have val: "map_of ?cs d = map_of pc d \<and> map_of pc d \<noteq> None"
    if d: "d \<in> set ds" "d \<noteq> prefix self" for d
  proof -
    from known d obtain v where v: "(d, v) \<in> set pc" and skip: "d \<notin> {''chain'', ''draw'', prefix self}"
      by auto
    have "map_of ?cs d = Some v"
      by (rule sample_curve_coords_keys(3) [OF keys day v skip])
    moreover have "map_of pc d = Some v"
      using keys v by (rule map_of_is_SomeI)
    ultimately show ?thesis by simp
  qed
  have others: "\<forall>d \<in> set (dims (h ! prior self)). d \<noteq> prefix self \<longrightarrow> map_of ?cs d \<noteq> None"
    using val by (simp add: ds_def)
  have "prefix self \<notin> set (map fst ?cs)"
    using pday by (simp add: sample_curve_coords_keys(1) [OF keys day])
  then have free: "map_of ?cs (prefix self) = None \<or>
                   map_of ?cs (prefix self) = Some (Labels (nodes self))"
    by (simp add: map_of_eq_None_iff)
  obtain t k where k: "index_of (prefix self) ds = Some k"
    and run: "FourierBase_apply self h ?cs beta_values (full_period self) = Inr t"
    and shp: "shape t = length (full_period self) #
                map (\<lambda>d. coord_size (the (map_of ?cs d))) (remove1 (prefix self) ds)"
    and itm: "\<And>p idx. p < length (full_period self) \<Longrightarrow> list_all2 (<) idx (tl (shape t)) \<Longrightarrow>
              item t (p # idx) =
                (\<Sum>c\<leftarrow>[0..<2 * nat (n_order self)].
                   generate_fourier_modes ?periods (n_order self) ! p ! c *
                   beta_values (take k idx @ [c] @ drop k idx))"
    using apply_result [OF pfx [unfolded ds_def] dist [unfolded ds_def] date [unfolded ds_def]
        others free, of beta_values "full_period self"]
    unfolding ds_def by blast
  have sizes: "map (\<lambda>d. coord_size (the (map_of ?cs d))) (remove1 (prefix self) ds) =
               map (\<lambda>d. coord_size (the (map_of pc d))) (remove1 (prefix self) ds)"
  proof (rule map_cong [OF refl])
    fix d assume "d \<in> set (remove1 (prefix self) ds)"
    then have "d \<in> set ds" "d \<noteq> prefix self" using dist by auto
    then show "coord_size (the (map_of ?cs d)) = coord_size (the (map_of pc d))"
      using val by simp
  qed
  have row: "generate_fourier_modes ?periods (n_order self) ! p =
             generate_fourier_modes [real p / days_in_period self] (n_order self) ! 0"
    if p: "p < length (full_period self)" for p
  proof -
    have "?periods ! p = real p / days_in_period self"
      using p by (simp add: full_period_def length_np_arange nth_np_arange)
    moreover have "p < length ?periods" using p by simp
    ultimately show ?thesis
      using generate_fourier_modes_row [of p ?periods "n_order self"] by simp
  qed
  have entries: "item t (p # idx) =
                (\<Sum>c\<leftarrow>[0..<2 * nat (n_order self)].
                   generate_fourier_modes [real p / days_in_period self] (n_order self) ! 0 ! c *
                   beta_values (take k idx @ [c] @ drop k idx))"
    if "p < length (full_period self)" and "list_all2 (<) idx (tl (shape t))" for p idx
    using itm [OF that] row [OF that(1)] by simp
  have "sample_curve self h pc beta_values = Inr t"
    using run by (simp add: sample_curve_def)
  moreover have "shape t = length (full_period self) #
                   map (\<lambda>d. coord_size (the (map_of pc d))) (remove1 (prefix self) ds)"
    using shp sizes by simp
  ultimately show ?thesis
    using k entries by blast
qed

text \<open>
  C6, as the code has it. \<^verbatim>\<open>np.arange(days_in_period + 1)\<close> holds the days
  \<open>0, 1, ...\<close> below \<open>days_in_period + 1\<close>: as many as \<open>days_in_period + 1\<close> rounded up.
  That is \<open>days_in_period + 1\<close> when the period is a whole number of days, 367 days for
  the yearly period and 32 for the monthly one. They are the \<^verbatim>\<open>"day"\<close> coordinate, which
  comes first, before the coordinates of the parameters other than \<^verbatim>\<open>"chain"\<close>,
  \<^verbatim>\<open>"draw"\<close> and the prefix. The curve that is returned has one entry per day along
  its leading axis, followed by the axes of the prior other than the prefix, and its
  entry at position \<open>p\<close> of the leading axis is the seasonality of day \<open>p\<close>: the sum over
  the harmonic axis of the features of \<open>p / days_in_period\<close> times the weights.
\<close>

theorem sample_curve_days:
  "length (full_period self) = nat \<lceil>days_in_period self + 1\<rceil> \<and>
   (\<forall>i < length (full_period self). full_period self ! i = real i) \<and>
   (\<forall>m. days_in_period self = real m \<longrightarrow> length (full_period self) = m + 1) \<and>
   (days_in_period self = DAYS_IN_YEAR \<longrightarrow> length (full_period self) = 367) \<and>
   (days_in_period self = DAYS_IN_MONTH \<longrightarrow> length (full_period self) = 32) \<and>
   (distinct (map fst pc) \<and> ''day'' \<notin> fst ` set pc \<longrightarrow>
      map fst (sample_curve_coords self pc) =
        ''day'' # filter (\<lambda>k. k \<notin> {''chain'', ''draw'', prefix self}) (map fst pc) \<and>
      map_of (sample_curve_coords self pc) ''day'' = Some (Numeric (full_period self))) \<and>
   (distinct (map fst pc) \<and> ''day'' \<notin> fst ` set pc \<and> prefix self \<noteq> ''day'' \<and>
    prefix self \<in> set (dims (h ! prior self)) \<and> distinct (dims (h ! prior self)) \<and>
    ''DATE'' \<notin> set (dims (h ! prior self)) \<and>
    (\<forall>d \<in> set (dims (h ! prior self)).
       d \<noteq> prefix self \<longrightarrow> d \<in> fst ` set pc \<and> d \<notin> {''chain'', ''draw''}) \<longrightarrow>
      (\<exists>t k. index_of (prefix self) (dims (h ! prior self)) = Some k \<and>
           sample_curve self h pc beta_values = Inr t \<and>
           shape t = length (full_period self) #
                     map (\<lambda>d. coord_size (the (map_of pc d)))
                       (remove1 (prefix self) (dims (h ! prior self))) \<and>
           (\<forall>p idx. p < length (full_period self) \<longrightarrow> list_all2 (<) idx (tl (shape t)) \<longrightarrow>
              item t (p # idx) =
                (\<Sum>c\<leftarrow>[0..<2 * nat (n_order self)].
                   generate_fourier_modes [real p / days_in_period self] (n_order self) ! 0 ! c *
                   beta_values (take k idx @ [c] @ drop k idx)))))"
proof (intro conjI allI impI)
  show "length (full_period self) = nat \<lceil>days_in_period self + 1\<rceil>"
    by (rule length_full_period)
next
  fix i assume "i < length (full_period self)"
  then show "full_period self ! i = real i"
    by (simp add: full_period_def length_np_arange nth_np_arange)
next
  fix m assume "days_in_period self = real m"
  then show "length (full_period self) = m + 1"
    by (rule length_full_period_whole)
next
  assume "days_in_period self = DAYS_IN_YEAR"
  then show "length (full_period self) = 367"
    by (rule length_full_period_year)
next
  assume "days_in_period self = DAYS_IN_MONTH"
  then show "length (full_period self) = 32"
    by (rule length_full_period_month)
next
  assume a: "distinct (map fst pc) \<and> ''day'' \<notin> fst ` set pc"
  then show "map fst (sample_curve_coords self pc) =
               ''day'' # filter (\<lambda>k. k \<notin> {''chain'', ''draw'', prefix self}) (map fst pc)"
    by (simp add: sample_curve_coords_keys(1))
  from a show "map_of (sample_curve_coords self pc) ''day'' = Some (Numeric (full_period self))"
    by (simp add: sample_curve_coords_keys(2))
next
  assume a: "distinct (map fst pc) \<and> ''day'' \<notin> fst ` set pc \<and> prefix self \<noteq> ''day'' \<and>
    prefix self \<in> set (dims (h ! prior self)) \<and> distinct (dims (h ! prior self)) \<and>
    ''DATE'' \<notin> set (dims (h ! prior self)) \<and>
    (\<forall>d \<in> set (dims (h ! prior self)).
       d \<noteq> prefix self \<longrightarrow> d \<in> fst ` set pc \<and> d \<notin> {''chain'', ''draw''})"
  show "\<exists>t k. index_of (prefix self) (dims (h ! prior self)) = Some k \<and>
           sample_curve self h pc beta_values = Inr t \<and>
           shape t = length (full_period self) #
                     map (\<lambda>d. coord_size (the (map_of pc d)))
                       (remove1 (prefix self) (dims (h ! prior self))) \<and>
           (\<forall>p idx. p < length (full_period self) \<longrightarrow> list_all2 (<) idx (tl (shape t)) \<longrightarrow>
              item t (p # idx) =
                (\<Sum>c\<leftarrow>[0..<2 * nat (n_order self)].
                   generate_fourier_modes [real p / days_in_period self] (n_order self) ! 0 ! c *
                   beta_values (take k idx @ [c] @ drop k idx)))"
    by (rule sample_curve_values) (use a in blast)+
qed

text \<open>
  The yearly component of \<^verbatim>\<open>test_additional_dimension\<close>, with one harmonic: 367 days,
  a curve of 367 days for each of the two groups of the additional axis, and on day 0
  the value for group 1 is the weight of \<^verbatim>\<open>cos_1\<close> in group 1.
\<close>

theorem sample_curve_days_witness:
  "length (full_period \<lparr>n_order = 1, prefix = ''fourier'', prior = 1,
                        variable_name = ''fourier_beta'', days_in_period = DAYS_IN_YEAR\<rparr>) = 367 \<and>
   full_period \<lparr>n_order = 1, prefix = ''fourier'', prior = 1,
                variable_name = ''fourier_beta'', days_in_period = DAYS_IN_YEAR\<rparr> ! 366 = 366 \<and>
   (\<exists>t. sample_curve
          \<lparr>n_order = 1, prefix = ''fourier'', prior = 1,
           variable_name = ''fourier_beta'', days_in_period = DAYS_IN_YEAR\<rparr>
          (initial_heap @ [\<lparr>distribution = ''Normal'', parameters = [],
                            dims = [''fourier'', ''additional_dim'']\<rparr>])
          [(''chain'', Numeric [0]), (''draw'', Numeric [0]),
           (''fourier'', Labels [''sin_1'', ''cos_1'']), (''additional_dim'', Numeric [0, 1])]
          (\<lambda>idx. real (idx ! 0) + 10 * real (idx ! 1)) = Inr t \<and>
        shape t = [367, 2] \<and> item t [0, 1] = 11)"
proof -
  let ?self = "\<lparr>n_order = 1, prefix = ''fourier'', prior = 1,
                variable_name = ''fourier_beta'', days_in_period = DAYS_IN_YEAR\<rparr>"
  let ?h = "initial_heap @ [\<lparr>distribution = ''Normal'', parameters = [],
                            dims = [''fourier'', ''additional_dim'']\<rparr>]"
  let ?pc = "[(''chain'', Numeric [0]), (''draw'', Numeric [0]),
              (''fourier'', Labels [''sin_1'', ''cos_1'']), (''additional_dim'', Numeric [0, 1])]"
  let ?beta = "\<lambda>idx. real (idx ! 0) + 10 * real (idx ! 1)"
  have ds: "dims (?h ! prior ?self) = [''fourier'', ''additional_dim'']"
    by (simp add: initial_heap_def)
  note T = sample_curve_days [of ?self ?pc ?h ?beta]
  have year: "days_in_period ?self = DAYS_IN_YEAR" by simp
  have len: "length (full_period ?self) = 367"
    using T [THEN conjunct2, THEN conjunct2, THEN conjunct2, THEN conjunct1] year
    by (rule mp)
  have p366: "(366::nat) < length (full_period ?self)" unfolding len by simp
  have "full_period ?self ! 366 = real (366::nat)"
    using T [THEN conjunct2, THEN conjunct1, rule_format, OF p366] .
  then have last: "full_period ?self ! 366 = 366" by simp
  have hyp: "distinct (map fst ?pc) \<and> ''day'' \<notin> fst ` set ?pc \<and> prefix ?self \<noteq> ''day'' \<and>
    prefix ?self \<in> set (dims (?h ! prior ?self)) \<and> distinct (dims (?h ! prior ?self)) \<and>
    ''DATE'' \<notin> set (dims (?h ! prior ?self)) \<and>
    (\<forall>d \<in> set (dims (?h ! prior ?self)).
       d \<noteq> prefix ?self \<longrightarrow> d \<in> fst ` set ?pc \<and> d \<notin> {''chain'', ''draw''})"
    unfolding ds by simp
  note curve = T [THEN conjunct2, THEN conjunct2, THEN conjunct2, THEN conjunct2,
      THEN conjunct2, THEN conjunct2, THEN mp, OF hyp]
  then obtain t k where all: "index_of (prefix ?self) (dims (?h ! prior ?self)) = Some k \<and>
      sample_curve ?self ?h ?pc ?beta = Inr t \<and>
      shape t = length (full_period ?self) #
                     map (\<lambda>d. coord_size (the (map_of ?pc d)))
                       (remove1 (prefix ?self) (dims (?h ! prior ?self))) \<and>
      (\<forall>p idx. p < length (full_period ?self) \<longrightarrow> list_all2 (<) idx (tl (shape t)) \<longrightarrow>
              item t (p # idx) =
                (\<Sum>c\<leftarrow>[0..<2 * nat (n_order ?self)].
                   generate_fourier_modes [real p / days_in_period ?self] (n_order ?self) ! 0 ! c *
                   (real ((take k idx @ [c] @ drop k idx) ! 0) +
                    10 * real ((take k idx @ [c] @ drop k idx) ! 1))))"
    by (elim exE) (rule that)
  note k = all [THEN conjunct1]
  note run = all [THEN conjunct2, THEN conjunct1]
  note shp = all [THEN conjunct2, THEN conjunct2, THEN conjunct1]
  note itm = all [THEN conjunct2, THEN conjunct2, THEN conjunct2, rule_format]
  have k0: "k = 0" using k unfolding ds by simp
  have shape_t: "shape t = [367, 2]"
    using shp unfolding ds len by simp
  have modes: "generate_fourier_modes [0] 1 = [[0, 1]]"
    by (simp add: generate_fourier_modes_def arange_def)
  have two: "[0..<2] = [0, Suc 0]"
    by (simp add: upt_rec)
  have p0: "(0::nat) < length (full_period ?self)" unfolding len by simp
  have b: "list_all2 (<) [1::nat] (tl (shape t))"
    unfolding shape_t by simp
  have item_t: "item t [0, 1] = 11"
    using itm [OF p0 b] by (simp add: k0 modes two)
  show ?thesis
    using len last run shape_t item_t by (intro conjI exI [of _ t]) simp_all
qed

text \<open>
  C6 as stated fails for the yearly component, whose period is 365.25 days: the curve
  has 367 points, not 366.25, and its last day, 366, is beyond the period.
\<close>

theorem sample_curve_days_counterexample:
  "real (length (full_period \<lparr>n_order = 2, prefix = ''fourier'', prior = 1,
                              variable_name = ''fourier_beta'', days_in_period = DAYS_IN_YEAR\<rparr>)) \<noteq>
     days_in_period \<lparr>n_order = 2, prefix = ''fourier'', prior = 1,
                     variable_name = ''fourier_beta'', days_in_period = DAYS_IN_YEAR\<rparr> + 1 \<and>
   length (full_period \<lparr>n_order = 2, prefix = ''fourier'', prior = 1,
                        variable_name = ''fourier_beta'', days_in_period = DAYS_IN_YEAR\<rparr>) = 367 \<and>
   days_in_period \<lparr>n_order = 2, prefix = ''fourier'', prior = 1,
                   variable_name = ''fourier_beta'', days_in_period = DAYS_IN_YEAR\<rparr> <
     full_period \<lparr>n_order = 2, prefix = ''fourier'', prior = 1,
                  variable_name = ''fourier_beta'', days_in_period = DAYS_IN_YEAR\<rparr> ! 366"
proof -
  let ?self = "\<lparr>n_order = 2, prefix = ''fourier'', prior = 1,
                variable_name = ''fourier_beta'', days_in_period = DAYS_IN_YEAR\<rparr>"
  have len: "length (full_period ?self) = 367"
    by (simp add: full_period_def np_arange_def DAYS_IN_YEAR_def)
  have last: "full_period ?self ! 366 = 366"
    by (simp add: full_period_def np_arange_def DAYS_IN_YEAR_def)
  show ?thesis
    unfolding len last by (simp add: DAYS_IN_YEAR_def)
qed

end
